theory Spec2Isabelle
  imports Complex_Main
begin

section \<open>JavaScript values\<close>

text \<open>
  The payload of the price feed is whatever \<^verbatim>\<open>response.json()\<close> parses: any JSON
  value. An object is the list of its own properties, each name once. A finite
  JavaScript number is a rational; the model computes with exact rationals and leaves
  the rounding of binary64 arithmetic, \<^verbatim>\<open>NaN\<close> and the infinities out.
\<close>

datatype json =
    JNull
  | JBool bool
  | JNum rat
  | JStr string
  | JArr "json list"
  | JObj "(string \<times> json) list"

text \<open>A JavaScript value read from a payload: \<open>None\<close> is \<^verbatim>\<open>undefined\<close>.\<close>

type_synonym jsval = "json option"

text \<open>
  Every failure of the source is an \<^verbatim>\<open>Error\<close> with a message. The constructors keep
  the throw sites apart: the guards on the request body, the session lookups, the
  runtime's own \<^verbatim>\<open>TypeError\<close>, and an exception of an external collaborator (the
  price feed, the agent, the language model).
\<close>

datatype error =
    MissingParameter string
  | SessionNotFound string
  | TypeError string
  | Thrown string

fun message_of :: "error \<Rightarrow> string" where
  "message_of (MissingParameter m) = m"
| "message_of (SessionNotFound m) = m"
| "message_of (TypeError m) = m"
| "message_of (Thrown m) = m"

text \<open>\<^verbatim>\<open>!v\<close> is true on the falsy values: \<^verbatim>\<open>undefined\<close>, \<^verbatim>\<open>null\<close>, \<^verbatim>\<open>false\<close>, \<^verbatim>\<open>0\<close> and \<^verbatim>\<open>""\<close>.\<close>

fun truthy :: "json \<Rightarrow> bool" where
  "truthy JNull = False"
| "truthy (JBool b) = b"
| "truthy (JNum x) = (x \<noteq> 0)"
| "truthy (JStr s) = (s \<noteq> [])"
| "truthy (JArr xs) = True"
| "truthy (JObj kvs) = True"

fun truthy_val :: "jsval \<Rightarrow> bool" where
  "truthy_val None = False"
| "truthy_val (Some j) = truthy j"

text \<open>
  \<^verbatim>\<open>v.p\<close> for the property names the source reads from the payload (\<^verbatim>\<open>bitcoin\<close>,
  \<^verbatim>\<open>ethereum\<close>, \<^verbatim>\<open>solana\<close>, \<^verbatim>\<open>usd\<close>, \<^verbatim>\<open>usd_24h_change\<close>), none of which a
  prototype defines: reading a property of \<^verbatim>\<open>undefined\<close> or \<^verbatim>\<open>null\<close> throws a
  \<^verbatim>\<open>TypeError\<close>, an object gives its own property, every other value gives
  \<^verbatim>\<open>undefined\<close>.
\<close>

fun get_prop :: "jsval \<Rightarrow> string \<Rightarrow> error + jsval" where
  "get_prop None p = Inl (TypeError p)"
| "get_prop (Some JNull) p = Inl (TypeError p)"
| "get_prop (Some (JObj kvs)) p = Inr (map_of kvs p)"
| "get_prop (Some (JBool b)) p = Inr None"
| "get_prop (Some (JNum x)) p = Inr None"
| "get_prop (Some (JStr s)) p = Inr None"
| "get_prop (Some (JArr xs)) p = Inr None"

text \<open>\<^verbatim>\<open>v || 0\<close>.\<close>

fun or_zero :: "jsval \<Rightarrow> json" where
  "or_zero None = JNum 0"
| "or_zero (Some j) = (if truthy j then j else JNum 0)"


section \<open>Price cache (\<^verbatim>\<open>PriceCacheService\<close>)\<close>

text \<open>
  One entry of the \<^verbatim>\<open>PriceCache\<close> interface. The fields \<^verbatim>\<open>usd\<close> and
  \<^verbatim>\<open>usd_24h_change\<close> are copied from the payload unchecked, so they hold whatever
  value the payload has there. \<^verbatim>\<open>last_updated\<close> is a clock reading in milliseconds.
\<close>

record price_entry =
  usd :: jsval
  usd_24h_change :: jsval
  last_updated :: nat

text \<open>
  The field \<^verbatim>\<open>cache\<close> is a plain object: the map holds its own properties, and a
  read of a name the object does not own falls through to \<^verbatim>\<open>Object.prototype\<close>.
\<close>

type_synonym PriceCache = "string \<rightharpoonup> price_entry"

definition Object_prototype :: "string list" where
  "Object_prototype =
     [''constructor'', ''__defineGetter__'', ''__defineSetter__'', ''hasOwnProperty'',
      ''__lookupGetter__'', ''__lookupSetter__'', ''isPrototypeOf'',
      ''propertyIsEnumerable'', ''toString'', ''valueOf'', ''__proto__'',
      ''toLocaleString'']"

text \<open>
  What \<^verbatim>\<open>this.cache[symbol]\<close> evaluates to: \<^verbatim>\<open>undefined\<close>, an entry of the cache,
  or the member of \<^verbatim>\<open>Object.prototype\<close> of that name.
\<close>

datatype lookup = Undefined | Entry price_entry | Inherited string

definition getPrice :: "PriceCache \<Rightarrow> string \<Rightarrow> lookup" where
  "getPrice cache symbol =
     (case cache symbol of
        Some e \<Rightarrow> Entry e
      | None \<Rightarrow> if symbol \<in> set Object_prototype then Inherited symbol else Undefined)"

text \<open>
  The condition \<^verbatim>\<open>!data.bitcoin || !data.ethereum || !data.solana\<close>, evaluated left
  to right with short circuit; it throws when \<^verbatim>\<open>data\<close> is \<^verbatim>\<open>null\<close>.
\<close>

definition invalid_response :: "json \<Rightarrow> error + bool" where
  "invalid_response data =
     (case get_prop (Some data) ''bitcoin'' of
        Inl e \<Rightarrow> Inl e
      | Inr b \<Rightarrow>
          if \<not> truthy_val b then Inr True
          else (case get_prop (Some data) ''ethereum'' of
                  Inl e \<Rightarrow> Inl e
                | Inr t \<Rightarrow>
                    if \<not> truthy_val t then Inr True
                    else (case get_prop (Some data) ''solana'' of
                            Inl e \<Rightarrow> Inl e
                          | Inr s \<Rightarrow> Inr (\<not> truthy_val s))))"

text \<open>
  One entry of the object literal:
  \<^verbatim>\<open>{ usd: data.c.usd, usd_24h_change: data.c.usd_24h_change, last_updated: new Date() }\<close>,
  with \<open>t\<close> the reading of the clock.
\<close>

definition new_entry :: "json \<Rightarrow> string \<Rightarrow> nat \<Rightarrow> error + price_entry" where
  "new_entry data c t =
     (case get_prop (Some data) c of
        Inl e \<Rightarrow> Inl e
      | Inr coin \<Rightarrow>
          (case get_prop coin ''usd'' of
             Inl e \<Rightarrow> Inl e
           | Inr u \<Rightarrow>
               (case get_prop coin ''usd_24h_change'' of
                  Inl e \<Rightarrow> Inl e
                | Inr ch \<Rightarrow> Inr \<lparr>usd = u, usd_24h_change = ch, last_updated = t\<rparr>)))"

text \<open>
  The body of the \<^verbatim>\<open>try\<close> block of \<^verbatim>\<open>updatePrices\<close>. \<open>fetched\<close> is the outcome of
  \<^verbatim>\<open>fetch\<close> followed by \<^verbatim>\<open>response.json()\<close>: the exception either of them throws,
  or the parsed payload. \<open>t1\<close>, \<open>t2\<close>, \<open>t3\<close> are the three readings \<^verbatim>\<open>new Date()\<close>.
  The result is the exception the block throws, or the value of \<^verbatim>\<open>this.cache\<close> when
  it ends: the early \<^verbatim>\<open>return\<close> leaves the field as it was, the assignment replaces
  the whole object.
\<close>

definition updatePrices_try ::
    "PriceCache \<Rightarrow> error + json \<Rightarrow> nat \<Rightarrow> nat \<Rightarrow> nat \<Rightarrow> error + PriceCache" where
  "updatePrices_try cache fetched t1 t2 t3 =
     (case fetched of
        Inl e \<Rightarrow> Inl e
      | Inr data \<Rightarrow>
          (case invalid_response data of
             Inl e \<Rightarrow> Inl e
           | Inr True \<Rightarrow> Inr cache
           | Inr False \<Rightarrow>
               (case new_entry data ''bitcoin'' t1 of
                  Inl e \<Rightarrow> Inl e
                | Inr btc \<Rightarrow>
                    (case new_entry data ''ethereum'' t2 of
                       Inl e \<Rightarrow> Inl e
                     | Inr eth \<Rightarrow>
                         (case new_entry data ''solana'' t3 of
                            Inl e \<Rightarrow> Inl e
                          | Inr sol \<Rightarrow>
                              Inr [''BTC'' \<mapsto> btc, ''ETH'' \<mapsto> eth, ''SOL'' \<mapsto> sol])))))"

text \<open>
  \<^verbatim>\<open>updatePrices\<close>: the \<^verbatim>\<open>catch\<close> clause logs the exception and returns, so the
  method never throws and the field keeps its value.
\<close>

definition updatePrices ::
    "PriceCache \<Rightarrow> error + json \<Rightarrow> nat \<Rightarrow> nat \<Rightarrow> nat \<Rightarrow> PriceCache" where
  "updatePrices cache fetched t1 t2 t3 =
     (case updatePrices_try cache fetched t1 t2 t3 of
        Inl e \<Rightarrow> cache
      | Inr cache' \<Rightarrow> cache')"

text \<open>
  One refresh attempt as the environment shapes it: the time at which
  \<^verbatim>\<open>updatePrices\<close> is called, the outcome of the request, the time the request takes,
  and the time that passes between the three readings of the clock. Times are natural
  numbers of milliseconds, so the clock does not run backwards.
\<close>

record attempt =
  started :: nat
  fetched :: "error + json"
  took :: nat
  gap1 :: nat
  gap2 :: nat

definition refresh :: "PriceCache \<Rightarrow> attempt \<Rightarrow> PriceCache" where
  "refresh cache a =
     updatePrices cache (fetched a)
       (started a + took a)
       (started a + took a + gap1 a)
       (started a + took a + gap1 a + gap2 a)"

text \<open>
  The cache of a new service is \<^verbatim>\<open>{}\<close>; the constructor and the timer then run refresh
  attempts, whose continuations after the request complete one after the other.
\<close>

definition initial_cache :: PriceCache where
  "initial_cache = Map.empty"

definition refreshes :: "attempt list \<Rightarrow> PriceCache" where
  "refreshes as = foldl refresh initial_cache as"

text \<open>
  A refresh attempt succeeds when the request returns a payload that passes the
  validation.
\<close>

definition successful :: "attempt \<Rightarrow> bool" where
  "successful a =
     (case fetched a of
        Inl e \<Rightarrow> False
      | Inr data \<Rightarrow> invalid_response data = Inr False)"

text \<open>
  The operations of the service as its users see them: a read, or the completion of a
  refresh attempt. Each returns the cache it leaves and what the caller receives.
\<close>

datatype cache_op = GetPrice string | UpdatePrices attempt

fun exec_op :: "PriceCache \<Rightarrow> cache_op \<Rightarrow> PriceCache \<times> lookup option" where
  "exec_op cache (GetPrice symbol) = (cache, Some (getPrice cache symbol))"
| "exec_op cache (UpdatePrices a) = (refresh cache a, None)"

fun exec_ops :: "PriceCache \<Rightarrow> cache_op list \<Rightarrow> PriceCache \<times> lookup option list" where
  "exec_ops cache [] = (cache, [])"
| "exec_ops cache (x # xs) =
     (let (cache', r) = exec_op cache x;
          (cache'', rs) = exec_ops cache' xs
      in (cache'', r # rs))"

fun is_read :: "cache_op \<Rightarrow> bool" where
  "is_read (GetPrice symbol) = True"
| "is_read (UpdatePrices a) = False"

text \<open>A payload omits a symbol when it is not an object with a property of that name.\<close>

fun omits :: "json \<Rightarrow> string \<Rightarrow> bool" where
  "omits (JObj kvs) c = (map_of kvs c = None)"
| "omits j c = True"

definition tracked :: "string list" where
  "tracked = [''BTC'', ''ETH'', ''SOL'']"

definition tracked_ids :: "string list" where
  "tracked_ids = [''bitcoin'', ''ethereum'', ''solana'']"


text \<open>
  A price is non-negative when it is a number that is at least 0; what a read returns has
  a non-negative price unless it is an entry whose \<^verbatim>\<open>usd\<close> is something else.
\<close>

definition nonneg :: "jsval \<Rightarrow> bool" where
  "nonneg v = (case v of Some (JNum x) \<Rightarrow> 0 \<le> x | _ \<Rightarrow> False)"

fun price_nonneg :: "lookup \<Rightarrow> bool" where
  "price_nonneg Undefined = True"
| "price_nonneg (Entry e) = nonneg (usd e)"
| "price_nonneg (Inherited n) = True"

text \<open>The \<^verbatim>\<open>usd\<close> that a payload carries for a coin, as the feed documents its shape.\<close>

fun usd_in :: "json \<Rightarrow> string \<Rightarrow> jsval" where
  "usd_in (JObj kvs) c = (case map_of kvs c of Some (JObj ps) \<Rightarrow> map_of ps ''usd'' | _ \<Rightarrow> None)"
| "usd_in j c = None"

definition payload_nonneg :: "attempt \<Rightarrow> bool" where
  "payload_nonneg a =
     (case fetched a of
        Inl e \<Rightarrow> False
      | Inr data \<Rightarrow> list_all (\<lambda>c. nonneg (usd_in data c)) tracked_ids)"


section \<open>Sessions and the chat pipeline (\<^verbatim>\<open>server.ts\<close>)\<close>

text \<open>
  Modelled from the spec: the class \<^verbatim>\<open>SolanaAgentKit\<close> and the function
  \<^verbatim>\<open>createVercelAITools\<close> come from the toolkit module \<^verbatim>\<open>./src\<close>, which is not among
  the sources. An agent is a capability handle constructed from an identity, a connection
  endpoint and a credential bundle; \<open>ref\<close> is the identity of the object that \<^verbatim>\<open>new\<close>
  allocates. The tool set is derived from the agent and bound to it.
\<close>

record credentials =
  OPENAI_API_KEY :: string
  HELIUS_API_KEY :: string

record SolanaAgentKit =
  ref :: nat
  wallet :: string
  rpc_url :: string
  config :: credentials

datatype toolset = VercelAITools SolanaAgentKit

definition createVercelAITools :: "SolanaAgentKit \<Rightarrow> toolset" where
  "createVercelAITools a = VercelAITools a"

text \<open>The value stored in \<^verbatim>\<open>userSessions\<close>: \<^verbatim>\<open>{ agent, tools }\<close>.\<close>

record session =
  agent :: SolanaAgentKit
  tools :: toolset

text \<open>The argument of \<^verbatim>\<open>streamText\<close>.\<close>

record invocation =
  prompt :: string
  inv_tools :: toolset
  model :: string
  temperature :: rat
  system :: string
  maxSteps :: nat

text \<open>
  \<^verbatim>\<open>response.textStream\<close>: the fragments the stream delivers, and the exception that
  ends the iteration, if one does.
\<close>

datatype text_stream = TextStream "string list" "error option"

text \<open>What \<^verbatim>\<open>get_token_balance\<close> resolves to.\<close>

record token =
  tokenAddress :: string
  name :: string
  symbol :: string
  balance :: rat

record balances =
  sol :: rat
  tokens :: "token list"

text \<open>
  The collaborators of one request as the handlers use them: the variables of
  \<^verbatim>\<open>process.env\<close>, the exception of the agent's construction (if it throws), the
  language model, and the queries of the session's agent. Each call either throws
  (\<open>Inl\<close>) or returns (\<open>Inr\<close>); within one request a collaborator is a function of
  its arguments.
\<close>

record env =
  RPC_URL :: string
  env_keys :: credentials
  SolanaAgentKit_throws :: "error option"
  streamText :: "invocation \<Rightarrow> error + text_stream"
  get_token_balance :: "SolanaAgentKit \<Rightarrow> error + balances"
  getPythPriceFeedID :: "SolanaAgentKit \<Rightarrow> string \<Rightarrow> error + string"
  getPythPrice :: "SolanaAgentKit \<Rightarrow> string \<Rightarrow> error + rat"
  fetchTokenPrice :: "SolanaAgentKit \<Rightarrow> string \<Rightarrow> error + rat"

text \<open>
  The state of the process: the map \<^verbatim>\<open>userSessions\<close>, the number of agents allocated
  so far (the identity of the next one), and the cache of the price service.
\<close>

record server =
  userSessions :: "string \<rightharpoonup> session"
  allocated :: nat
  priceCache :: PriceCache

definition initial_server :: server where
  "initial_server = \<lparr>userSessions = Map.empty, allocated = 0, priceCache = initial_cache\<rparr>"

text \<open>
  \<^verbatim>\<open>POST /api/init-session\<close>. A missing or empty \<^verbatim>\<open>publicKey\<close> is falsy. The result
  is the response (\<open>Inl\<close> for status 500) and the state the handler leaves.
\<close>

definition api_init_session :: "env \<Rightarrow> server \<Rightarrow> string \<Rightarrow> (error + unit) \<times> server" where
  "api_init_session env st publicKey =
     (if publicKey = [] then (Inl (MissingParameter ''Public key is required''), st)
      else
        (case SolanaAgentKit_throws env of
           Some e \<Rightarrow> (Inl e, st)
         | None \<Rightarrow>
             (let solanaAgent =
                    \<lparr>ref = allocated st, wallet = publicKey, rpc_url = RPC_URL env,
                     config = env_keys env\<rparr>
              in (Inr (),
                  st\<lparr>userSessions :=
                       (userSessions st)(publicKey \<mapsto>
                          \<lparr>agent = solanaAgent, tools = createVercelAITools solanaAgent\<rparr>),
                     allocated := Suc (allocated st)\<rparr>))))"

text \<open>The loop \<^verbatim>\<open>for await (const chunk of response.textStream) fullResponse += chunk\<close>.\<close>

fun buffer :: "string \<Rightarrow> string list \<Rightarrow> string" where
  "buffer fullResponse [] = fullResponse"
| "buffer fullResponse (chunk # chunks) = buffer (fullResponse @ chunk) chunks"

text \<open>
  \<^verbatim>\<open>POST /api/chat\<close>. The result is the response, the state the handler leaves, and the
  calls of \<^verbatim>\<open>streamText\<close> it made, in order.
\<close>

definition chat_invocation :: "session \<Rightarrow> string \<Rightarrow> invocation" where
  "chat_invocation s message =
     \<lparr>prompt = message, inv_tools = tools s, model = ''gpt-4o-mini'', temperature = 7 / 10,
      system =
        ''You are a helpful agent that can interact onchain using the Solana Agent Kit...'',
      maxSteps = 10\<rparr>"

definition api_chat ::
    "env \<Rightarrow> server \<Rightarrow> string \<Rightarrow> string \<Rightarrow> (error + string) \<times> server \<times> invocation list" where
  "api_chat env st publicKey message =
     (if message = [] \<or> publicKey = [] then
        (Inl (MissingParameter ''Message and public key are required''), st, [])
      else
        (case userSessions st publicKey of
           None \<Rightarrow>
             (Inl (SessionNotFound ''Session not found - please connect wallet first''), st, [])
         | Some s \<Rightarrow>
             (let call = chat_invocation s message
              in (case streamText env call of
                    Inl e \<Rightarrow> (Inl e, st, [call])
                  | Inr (TextStream chunks failure) \<Rightarrow>
                      (case failure of
                         Some e \<Rightarrow> (Inl e, st, [call])
                       | None \<Rightarrow> (Inr (buffer [] chunks), st, [call]))))))"

text \<open>\<^verbatim>\<open>POST /api/sign-transaction\<close>: echoes the transaction with \<^verbatim>\<open>requiresSignature\<close>.\<close>

definition api_sign_transaction ::
    "server \<Rightarrow> string \<Rightarrow> string \<Rightarrow> (error + string \<times> bool) \<times> server" where
  "api_sign_transaction st publicKey transaction =
     (case userSessions st publicKey of
        None \<Rightarrow> (Inl (SessionNotFound ''Session not found''), st)
      | Some s \<Rightarrow> (Inr (transaction, True), st))"


text \<open>A response that fails with the session-not-found condition.\<close>

fun session_not_found :: "error + 'a \<Rightarrow> bool" where
  "session_not_found (Inl (SessionNotFound m)) = True"
| "session_not_found r = False"


section \<open>Portfolio (\<^verbatim>\<open>server.ts\<close>)\<close>

text \<open>
  \<^verbatim>\<open>Number(x.toFixed(d))\<close>: the decimal with \<open>d\<close> fraction digits nearest to \<open>x\<close>, a tie
  going away from zero, read back as a number.
\<close>

definition toFixed :: "rat \<Rightarrow> nat \<Rightarrow> rat" where
  "toFixed x d =
     (if x < 0 then - (of_int \<lfloor>- x * 10 ^ d + 1 / 2\<rfloor> / 10 ^ d)
      else of_int \<lfloor>x * 10 ^ d + 1 / 2\<rfloor> / 10 ^ d)"

record formatted_token =
  ft_token :: string
  ft_symbol :: string
  ft_balance :: rat
  ft_usdValue :: rat

record watch =
  w_price :: json
  w_change :: json

record portfolio =
  r_sol :: rat
  r_solPrice :: rat
  r_solUsdValue :: rat
  r_tokens :: "formatted_token list"
  BTC :: watch
  ETH :: watch
  SOL :: watch

text \<open>
  The callback of \<^verbatim>\<open>balances.tokens.map\<close>: \<^verbatim>\<open>usdValue\<close> starts at 0, is the balance
  for USDC, and otherwise the balance times the price, unless the lookup throws.
\<close>

definition format_token :: "env \<Rightarrow> SolanaAgentKit \<Rightarrow> token \<Rightarrow> formatted_token" where
  "format_token env a t =
     (let usdValue =
            (if symbol t = ''USDC'' then balance t
             else (case fetchTokenPrice env a (tokenAddress t) of
                     Inl err \<Rightarrow> 0
                   | Inr price \<Rightarrow> balance t * price))
      in \<lparr>ft_token = symbol t, ft_symbol = name t, ft_balance = toFixed (balance t) 8,
          ft_usdValue = toFixed usdValue 2\<rparr>)"

text \<open>\<^verbatim>\<open>w?.usd\<close> and \<^verbatim>\<open>w?.usd_24h_change\<close> on what \<^verbatim>\<open>getPrice\<close> returned.\<close>

fun usd_of :: "lookup \<Rightarrow> jsval" where
  "usd_of Undefined = None"
| "usd_of (Entry e) = usd e"
| "usd_of (Inherited n) = None"

fun change_of :: "lookup \<Rightarrow> jsval" where
  "change_of Undefined = None"
| "change_of (Entry e) = usd_24h_change e"
| "change_of (Inherited n) = None"

definition watch_of :: "lookup \<Rightarrow> watch" where
  "watch_of w = \<lparr>w_price = or_zero (usd_of w), w_change = or_zero (change_of w)\<rparr>"

text \<open>\<^verbatim>\<open>GET /api/portfolio/:publicKey\<close>.\<close>

definition api_portfolio :: "env \<Rightarrow> server \<Rightarrow> string \<Rightarrow> (error + portfolio) \<times> server" where
  "api_portfolio env st publicKey =
     (case userSessions st publicKey of
        None \<Rightarrow> (Inl (SessionNotFound ''Session not found''), st)
      | Some s \<Rightarrow>
          (case get_token_balance env (agent s) of
             Inl e \<Rightarrow> (Inl e, st)
           | Inr balances \<Rightarrow>
               (case getPythPriceFeedID env (agent s) ''SOL'' of
                  Inl e \<Rightarrow> (Inl e, st)
                | Inr solPriceFeedID \<Rightarrow>
                    (case getPythPrice env (agent s) solPriceFeedID of
                       Inl e \<Rightarrow> (Inl e, st)
                     | Inr solPrice \<Rightarrow>
                         (let solBalance = toFixed (sol balances) 8;
                              solUsdValue = toFixed (solBalance * solPrice) 2;
                              formattedTokens = map (format_token env (agent s)) (tokens balances)
                          in (Inr \<lparr>r_sol = solBalance, r_solPrice = solPrice,
                                   r_solUsdValue = solUsdValue, r_tokens = formattedTokens,
                                   BTC = watch_of (getPrice (priceCache st) ''BTC''),
                                   ETH = watch_of (getPrice (priceCache st) ''ETH''),
                                   SOL = watch_of (getPrice (priceCache st) ''SOL'')\<rparr>,
                              st))))))"


section \<open>Histories of the process\<close>

datatype request =
    InitSession string
  | Chat string string
  | SignTransaction string string
  | Portfolio string

datatype event = Request env request | RefreshDone attempt

fun handle :: "env \<Rightarrow> server \<Rightarrow> request \<Rightarrow> server" where
  "handle env st (InitSession publicKey) = snd (api_init_session env st publicKey)"
| "handle env st (Chat publicKey message) = fst (snd (api_chat env st publicKey message))"
| "handle env st (SignTransaction publicKey transaction) =
     snd (api_sign_transaction st publicKey transaction)"
| "handle env st (Portfolio publicKey) = snd (api_portfolio env st publicKey)"

fun step :: "server \<Rightarrow> event \<Rightarrow> server" where
  "step st (Request env r) = handle env st r"
| "step st (RefreshDone a) = st\<lparr>priceCache := refresh (priceCache st) a\<rparr>"

definition run :: "event list \<Rightarrow> server" where
  "run evs = foldl step initial_server evs"

text \<open>The keys that a history passes to \<^verbatim>\<open>init-session\<close>.\<close>

fun init_keys :: "event list \<Rightarrow> string set" where
  "init_keys [] = {}"
| "init_keys (Request env (InitSession k) # evs) = insert k (init_keys evs)"
| "init_keys (ev # evs) = init_keys evs"


section \<open>The step loop of a model invocation\<close>

text \<open>
  Modelled from the spec: the loop that \<^verbatim>\<open>streamText\<close> runs belongs to the package
  \<^verbatim>\<open>ai\<close> and is not among the sources. The spec describes it as a bounded iteration
  of model step, optional tool dispatch and context update, capped at the step budget,
  which ends on a final answer or when the budget is exhausted; the steps are
  sequential; the result of a tool call, or its failure as an error observation, is fed
  back into the context before the model continues; a failure of the model call itself
  ends the exchange with an error.
\<close>

type_synonym tool_call = "string \<times> string"

type_synonym observation = "error + string"

type_synonym transcript = "(tool_call \<times> observation) list"

datatype model_step =
    FinalAnswer "string list"
  | ToolCalls "string list" "tool_call list"
  | ModelFails error

text \<open>
  \<open>respond\<close> is the language model on the context so far, \<open>dispatch\<close> runs one tool
  call against the session's agent. The result is the text fragments emitted, the error
  that ended the exchange (if any), and the number of steps performed.
\<close>

fun step_loop ::
    "(transcript \<Rightarrow> model_step) \<Rightarrow> (tool_call \<Rightarrow> observation) \<Rightarrow> nat \<Rightarrow> transcript \<Rightarrow>
     string list \<times> error option \<times> nat" where
  "step_loop respond dispatch 0 ctx = ([], None, 0)"
| "step_loop respond dispatch (Suc budget) ctx =
     (case respond ctx of
        FinalAnswer fragments \<Rightarrow> (fragments, None, 1)
      | ModelFails e \<Rightarrow> ([], Some e, 1)
      | ToolCalls fragments calls \<Rightarrow>
          (let (more, failure, n) =
                 step_loop respond dispatch budget (ctx @ map (\<lambda>c. (c, dispatch c)) calls)
           in (fragments @ more, failure, Suc n)))"

definition steps_taken ::
    "(invocation \<Rightarrow> transcript \<Rightarrow> model_step) \<Rightarrow> (toolset \<Rightarrow> tool_call \<Rightarrow> observation) \<Rightarrow>
     invocation \<Rightarrow> nat" where
  "steps_taken respond dispatch call =
     snd (snd (step_loop (respond call) (dispatch (inv_tools call)) (maxSteps call) []))"

definition streamText_loop ::
    "(invocation \<Rightarrow> transcript \<Rightarrow> model_step) \<Rightarrow> (toolset \<Rightarrow> tool_call \<Rightarrow> observation) \<Rightarrow>
     invocation \<Rightarrow> error + text_stream" where
  "streamText_loop respond dispatch call =
     (case step_loop (respond call) (dispatch (inv_tools call)) (maxSteps call) [] of
        (fragments, failure, n) \<Rightarrow> Inr (TextStream fragments failure))"


section \<open>Sample inputs\<close>

text \<open>
  The payload of the spec's end-to-end scenario, a refresh attempt that receives it, one
  whose request fails, one whose payload lacks \<^verbatim>\<open>ethereum\<close>, and one whose payload
  passes the validation with a negative price.
\<close>

definition ok_payload :: json where
  "ok_payload =
     JObj [(''bitcoin'', JObj [(''usd'', JNum 50000), (''usd_24h_change'', JNum (3 / 2))]),
           (''ethereum'', JObj [(''usd'', JNum 3000), (''usd_24h_change'', JNum (- 2))]),
           (''solana'', JObj [(''usd'', JNum 100), (''usd_24h_change'', JNum 5)])]"

definition ok_attempt :: attempt where
  "ok_attempt = \<lparr>started = 1000, fetched = Inr ok_payload, took = 250, gap1 = 0, gap2 = 1\<rparr>"

definition failed_attempt :: attempt where
  "failed_attempt =
     \<lparr>started = 5000, fetched = Inl (Thrown ''fetch failed''), took = 30, gap1 = 0, gap2 = 0\<rparr>"

definition partial_attempt :: attempt where
  "partial_attempt =
     \<lparr>started = 5000,
      fetched = Inr (JObj [(''bitcoin'', JObj [(''usd'', JNum 1), (''usd_24h_change'', JNum 0)]),
                           (''solana'', JObj [(''usd'', JNum 2), (''usd_24h_change'', JNum 0)])]),
      took = 30, gap1 = 0, gap2 = 0\<rparr>"

definition negative_attempt :: attempt where
  "negative_attempt =
     \<lparr>started = 0,
      fetched = Inr (JObj [(''bitcoin'', JObj [(''usd'', JNum (- 1)), (''usd_24h_change'', JNum 0)]),
                           (''ethereum'', JObj [(''usd'', JNum 3000), (''usd_24h_change'', JNum 0)]),
                           (''solana'', JObj [(''usd'', JNum 100), (''usd_24h_change'', JNum 0)])]),
      took = 0, gap1 = 0, gap2 = 0\<rparr>"

text \<open>
  Collaborator stubs: the model streams a fixed answer in two fragments, the agent holds
  2 SOL, an amount of USDC and another token, and every token price lookup throws.
  The sample history initialises a session for \<^verbatim>\<open>walletA\<close> and completes one refresh.
\<close>

definition stub_token_usdc :: token where
  "stub_token_usdc =
     \<lparr>tokenAddress = ''EPjFWdd5'', name = ''USD Coin'', symbol = ''USDC'',
      balance = 123456 / 10000\<rparr>"

definition stub_token_bonk :: token where
  "stub_token_bonk =
     \<lparr>tokenAddress = ''DezXAZ8z'', name = ''Bonk'', symbol = ''BONK'', balance = 1000\<rparr>"

definition stub_env :: env where
  "stub_env =
     \<lparr>RPC_URL = ''https://rpc.example'',
      env_keys = \<lparr>OPENAI_API_KEY = ''sk-test'', HELIUS_API_KEY = ''helius-test''\<rparr>,
      SolanaAgentKit_throws = None,
      streamText = (\<lambda>call. Inr (TextStream [''Your balance '', ''is 2 SOL''] None)),
      get_token_balance = (\<lambda>a. Inr \<lparr>sol = 2, tokens = [stub_token_usdc, stub_token_bonk]\<rparr>),
      getPythPriceFeedID = (\<lambda>a s. Inr ''feed-SOL''),
      getPythPrice = (\<lambda>a feed. Inr 150),
      fetchTokenPrice = (\<lambda>a address. Inl (Thrown ''price lookup failed''))\<rparr>"

definition sample_history :: "event list" where
  "sample_history = [Request stub_env (InitSession ''walletA''), RefreshDone ok_attempt]"

definition sample_agent :: SolanaAgentKit where
  "sample_agent =
     \<lparr>ref = 0, wallet = ''walletA'', rpc_url = ''https://rpc.example'',
      config = \<lparr>OPENAI_API_KEY = ''sk-test'', HELIUS_API_KEY = ''helius-test''\<rparr>\<rparr>"

definition sample_session :: session where
  "sample_session = \<lparr>agent = sample_agent, tools = VercelAITools sample_agent\<rparr>"

definition sample_balances :: balances where
  "sample_balances = \<lparr>sol = 2, tokens = [stub_token_usdc, stub_token_bonk]\<rparr>"

text \<open>A model that asks for a tool call at every step, and a tool that answers.\<close>

definition busy_model :: "invocation \<Rightarrow> transcript \<Rightarrow> model_step" where
  "busy_model call ctx = ToolCalls [''checking ''] [(''get_balance'', [])]"

definition stub_dispatch :: "toolset \<Rightarrow> tool_call \<Rightarrow> observation" where
  "stub_dispatch t c = Inr ''2''"


section \<open>Properties of the price cache\<close>

lemma valid_payload:
  assumes "invalid_response data = Inr False"
  shows "\<exists>kvs b t s. data = JObj kvs \<and> map_of kvs ''bitcoin'' = Some b \<and> truthy b
           \<and> map_of kvs ''ethereum'' = Some t \<and> truthy t
           \<and> map_of kvs ''solana'' = Some s \<and> truthy s"
proof (cases data)
  case (JObj kvs)
  with assms show ?thesis
    by (cases "map_of kvs ''bitcoin''"; cases "map_of kvs ''ethereum''"; cases "map_of kvs ''solana''")
       (auto simp: invalid_response_def split: if_splits)
qed (use assms in \<open>auto simp: invalid_response_def\<close>)

lemma get_prop_truthy:
  "truthy j \<Longrightarrow> \<exists>v. get_prop (Some j) p = Inr v"
  by (cases j) auto

lemma new_entry_ok:
  assumes "map_of kvs c = Some j" "truthy j"
  shows "\<exists>u ch. new_entry (JObj kvs) c t = Inr \<lparr>usd = u, usd_24h_change = ch, last_updated = t\<rparr>"
  using assms get_prop_truthy[of j "''usd''"] get_prop_truthy[of j "''usd_24h_change''"]
  by (auto simp: new_entry_def)

lemma updatePrices_success:
  assumes "invalid_response data = Inr False"
  shows "\<exists>b e s. new_entry data ''bitcoin'' t1 = Inr b \<and> last_updated b = t1
          \<and> new_entry data ''ethereum'' t2 = Inr e \<and> last_updated e = t2
          \<and> new_entry data ''solana'' t3 = Inr s \<and> last_updated s = t3
          \<and> updatePrices cache (Inr data) t1 t2 t3 = [''BTC'' \<mapsto> b, ''ETH'' \<mapsto> e, ''SOL'' \<mapsto> s]"
proof -
  from valid_payload[OF assms] obtain kvs b t s where
    d: "data = JObj kvs" and b: "map_of kvs ''bitcoin'' = Some b" "truthy b"
    and t: "map_of kvs ''ethereum'' = Some t" "truthy t"
    and s: "map_of kvs ''solana'' = Some s" "truthy s" by blast
  from new_entry_ok[OF b, of t1] new_entry_ok[OF t, of t2] new_entry_ok[OF s, of t3]
  show ?thesis using assms d
    by (auto simp: updatePrices_def updatePrices_try_def)
qed

lemma updatePrices_failure:
  assumes "\<not> (\<exists>data. res = Inr data \<and> invalid_response data = Inr False)"
  shows "updatePrices cache res t1 t2 t3 = cache"
  using assms
  by (auto simp: updatePrices_def updatePrices_try_def split: sum.splits bool.splits)

lemma refresh_unsuccessful: "\<not> successful a \<Longrightarrow> refresh cache a = cache"
  unfolding refresh_def successful_def
  by (rule updatePrices_failure) (auto split: sum.splits)

lemma refresh_successful:
  assumes "successful a"
  shows "\<exists>data b e s. fetched a = Inr data
          \<and> new_entry data ''bitcoin'' (started a + took a) = Inr b \<and> started a \<le> last_updated b
          \<and> new_entry data ''ethereum'' (started a + took a + gap1 a) = Inr e \<and> started a \<le> last_updated e
          \<and> new_entry data ''solana'' (started a + took a + gap1 a + gap2 a) = Inr s \<and> started a \<le> last_updated s
          \<and> refresh cache a = [''BTC'' \<mapsto> b, ''ETH'' \<mapsto> e, ''SOL'' \<mapsto> s]"
proof -
  from assms obtain data where d: "fetched a = Inr data" "invalid_response data = Inr False"
    by (auto simp: successful_def split: sum.splits)
  from updatePrices_success[OF d(2), of "started a + took a" "started a + took a + gap1 a"
      "started a + took a + gap1 a + gap2 a" cache]
  show ?thesis using d(1) unfolding refresh_def by auto
qed

lemma invalid_response_omits:
  "omits data c \<Longrightarrow> c \<in> set tracked_ids \<Longrightarrow> invalid_response data \<noteq> Inr False"
  by (cases data) (auto simp: invalid_response_def tracked_ids_def split: sum.splits)

lemma valid_not_omits:
  "invalid_response data = Inr False \<Longrightarrow> c \<in> set tracked_ids \<Longrightarrow> \<not> omits data c"
  using invalid_response_omits by blast

lemma foldl_refresh_unsuccessful:
  "\<forall>a \<in> set as. \<not> successful a \<Longrightarrow> foldl refresh cache as = cache"
  by (induction as arbitrary: cache) (simp_all add: refresh_unsuccessful)

lemma getPrice_tracked_entries:
  "getPrice [''BTC'' \<mapsto> b, ''ETH'' \<mapsto> e, ''SOL'' \<mapsto> s] ''BTC'' = Entry b"
  "getPrice [''BTC'' \<mapsto> b, ''ETH'' \<mapsto> e, ''SOL'' \<mapsto> s] ''ETH'' = Entry e"
  "getPrice [''BTC'' \<mapsto> b, ''ETH'' \<mapsto> e, ''SOL'' \<mapsto> s] ''SOL'' = Entry s"
  by (simp_all add: getPrice_def)

lemma exec_ops_reads:
  "\<forall>x \<in> set ops. is_read x \<Longrightarrow>
     fst (exec_ops cache ops) = cache \<and> length (snd (exec_ops cache ops)) = length ops \<and>
     (\<forall>i < length ops. \<forall>s. ops ! i = GetPrice s \<longrightarrow> snd (exec_ops cache ops) ! i = Some (getPrice cache s))"
proof (induction ops)
  case Nil
  then show ?case by simp
next
  case (Cons x xs)
  then obtain s where x: "x = GetPrice s" by (cases x) auto
  from Cons have ih: "fst (exec_ops cache xs) = cache" "length (snd (exec_ops cache xs)) = length xs"
     "\<forall>i < length xs. \<forall>s. xs ! i = GetPrice s \<longrightarrow> snd (exec_ops cache xs) ! i = Some (getPrice cache s)"
    by auto
  show ?case using ih x
    by (auto simp: split_beta nth_Cons split: nat.splits)
qed


lemma new_entry_usd: "new_entry data c t = Inr e \<Longrightarrow> usd e = usd_in data c"
proof (cases data)
  case (JObj kvs)
  assume h: "new_entry data c t = Inr e"
  show ?thesis
  proof (cases "map_of kvs c")
    case None
    with h JObj show ?thesis by (simp add: new_entry_def)
  next
    case (Some j)
    with h JObj show ?thesis by (cases j) (auto simp: new_entry_def)
  qed
qed (auto simp: new_entry_def)

lemma refresh_keeps_nonneg:
  assumes inv: "\<forall>s e. cache s = Some e \<longrightarrow> nonneg (usd e)"
    and a: "successful a \<longrightarrow> payload_nonneg a"
  shows "\<forall>s e. refresh cache a s = Some e \<longrightarrow> nonneg (usd e)"
proof (cases "successful a")
  case False
  then show ?thesis using inv by (simp add: refresh_unsuccessful)
next
  case True
  from refresh_successful[OF True, of cache] obtain data b e s where
    d: "fetched a = Inr data"
    and b: "new_entry data ''bitcoin'' (started a + took a) = Inr b"
    and e: "new_entry data ''ethereum'' (started a + took a + gap1 a) = Inr e"
    and s: "new_entry data ''solana'' (started a + took a + gap1 a + gap2 a) = Inr s"
    and r: "refresh cache a = [''BTC'' \<mapsto> b, ''ETH'' \<mapsto> e, ''SOL'' \<mapsto> s]"
    by blast
  from a True d have p: "nonneg (usd_in data ''bitcoin'')" "nonneg (usd_in data ''ethereum'')"
      "nonneg (usd_in data ''solana'')"
    by (simp_all add: payload_nonneg_def tracked_ids_def)
  have "nonneg (usd b)" "nonneg (usd e)" "nonneg (usd s)"
    using p new_entry_usd[OF b] new_entry_usd[OF e] new_entry_usd[OF s] by simp_all
  then show ?thesis unfolding r by (auto split: if_splits)
qed

lemma foldl_refresh_nonneg:
  "\<forall>s e. cache s = Some e \<longrightarrow> nonneg (usd e) \<Longrightarrow>
   \<forall>a \<in> set as. successful a \<longrightarrow> payload_nonneg a \<Longrightarrow>
   \<forall>s e. foldl refresh cache as s = Some e \<longrightarrow> nonneg (usd e)"
proof (induction as arbitrary: cache)
  case Nil
  then show ?case by simp
next
  case (Cons a as)
  have "\<forall>s e. refresh cache a s = Some e \<longrightarrow> nonneg (usd e)"
    using Cons.prems by (intro refresh_keeps_nonneg) auto
  then show ?case using Cons.IH[of "refresh cache a"] Cons.prems(2) by simp
qed

lemma foldl_refresh_dom:
  "dom cache \<subseteq> set tracked \<Longrightarrow> dom (foldl refresh cache as) \<subseteq> set tracked"
proof (induction as arbitrary: cache)
  case Nil
  then show ?case by simp
next
  case (Cons a as)
  have "dom (refresh cache a) \<subseteq> set tracked"
  proof (cases "successful a")
    case True
    from refresh_successful[OF True, of cache] show ?thesis
      by (auto simp: tracked_def split: if_splits)
  next
    case False
    then show ?thesis using Cons.prems by (simp add: refresh_unsuccessful)
  qed
  then show ?case using Cons.IH by simp
qed

lemma refreshes_dom: "dom (refreshes as) \<subseteq> set tracked"
  unfolding refreshes_def by (rule foldl_refresh_dom) (simp add: initial_cache_def)

lemma getPrice_untracked:
  "s \<notin> set tracked \<Longrightarrow> s \<notin> set Object_prototype \<Longrightarrow> getPrice (refreshes as) s = Undefined"
  using refreshes_dom[of as] by (auto simp: getPrice_def split: option.splits)

text \<open>
  Claim C2. Whatever the cache holds, a refresh attempt whose request throws, or whose
  payload omits \<^verbatim>\<open>bitcoin\<close>, \<^verbatim>\<open>ethereum\<close> or \<^verbatim>\<open>solana\<close>, leaves the cache as it
  was: every read returns what it returned before and no \<^verbatim>\<open>last_updated\<close> changes.
  \<^verbatim>\<open>updatePrices\<close> returns a cache and \<^verbatim>\<open>getPrice\<close> a value, so neither raises. When
  an attempt does change the cache, its payload has all three symbols and the new cache
  consists of exactly the three entries built from it.
\<close>

theorem C2_failed_refresh_keeps_cache:
  "((\<exists>err. fetched a = Inl err) \<or>
    (\<exists>data c. fetched a = Inr data \<and> c \<in> set tracked_ids \<and> omits data c)
    \<longrightarrow> refresh cache a = cache
        \<and> (\<forall>s. getPrice (refresh cache a) s = getPrice cache s)
        \<and> (\<forall>s. map_option last_updated (refresh cache a s) = map_option last_updated (cache s)))
   \<and> (refresh cache a \<noteq> cache
    \<longrightarrow> (\<exists>data b e s. fetched a = Inr data \<and> (\<forall>c \<in> set tracked_ids. \<not> omits data c)
          \<and> new_entry data ''bitcoin'' (started a + took a) = Inr b
          \<and> new_entry data ''ethereum'' (started a + took a + gap1 a) = Inr e
          \<and> new_entry data ''solana'' (started a + took a + gap1 a + gap2 a) = Inr s
          \<and> refresh cache a = [''BTC'' \<mapsto> b, ''ETH'' \<mapsto> e, ''SOL'' \<mapsto> s]))"
proof (intro conjI impI)
  assume h: "(\<exists>err. fetched a = Inl err) \<or>
    (\<exists>data c. fetched a = Inr data \<and> c \<in> set tracked_ids \<and> omits data c)"
  have "\<not> successful a"
    using h invalid_response_omits by (auto simp: successful_def)
  then have eq: "refresh cache a = cache" by (rule refresh_unsuccessful)
  show "refresh cache a = cache" by (rule eq)
  show "\<forall>s. getPrice (refresh cache a) s = getPrice cache s" by (simp add: eq)
  show "\<forall>s. map_option last_updated (refresh cache a s) = map_option last_updated (cache s)"
    by (simp add: eq)
next
  assume ne: "refresh cache a \<noteq> cache"
  then have suc: "successful a" using refresh_unsuccessful by blast
  then obtain data where d: "fetched a = Inr data" "invalid_response data = Inr False"
    by (auto simp: successful_def split: sum.splits)
  from refresh_successful[OF suc, of cache] d valid_not_omits[OF d(2)]
  show "\<exists>data b e s. fetched a = Inr data \<and> (\<forall>c \<in> set tracked_ids. \<not> omits data c)
          \<and> new_entry data ''bitcoin'' (started a + took a) = Inr b
          \<and> new_entry data ''ethereum'' (started a + took a + gap1 a) = Inr e
          \<and> new_entry data ''solana'' (started a + took a + gap1 a + gap2 a) = Inr s
          \<and> refresh cache a = [''BTC'' \<mapsto> b, ''ETH'' \<mapsto> e, ''SOL'' \<mapsto> s]"
    by auto
qed

theorem C2_witness:
  "fetched failed_attempt = Inl (Thrown ''fetch failed'')
   \<and> refresh (refresh initial_cache ok_attempt) failed_attempt = refresh initial_cache ok_attempt
   \<and> omits (JObj [(''bitcoin'', JObj [(''usd'', JNum 1), (''usd_24h_change'', JNum 0)]),
                  (''solana'', JObj [(''usd'', JNum 2), (''usd_24h_change'', JNum 0)])]) ''ethereum''
   \<and> refresh (refresh initial_cache ok_attempt) partial_attempt = refresh initial_cache ok_attempt
   \<and> refresh initial_cache ok_attempt \<noteq> initial_cache
   \<and> \<not> omits ok_payload ''solana''"
proof -
  have f: "fetched failed_attempt = Inl (Thrown ''fetch failed'')"
    by (simp add: failed_attempt_def)
  have p: "fetched partial_attempt = Inr (JObj [(''bitcoin'', JObj [(''usd'', JNum 1), (''usd_24h_change'', JNum 0)]),
                  (''solana'', JObj [(''usd'', JNum 2), (''usd_24h_change'', JNum 0)])])"
      "''ethereum'' \<in> set tracked_ids"
      "omits (JObj [(''bitcoin'', JObj [(''usd'', JNum 1), (''usd_24h_change'', JNum 0)]),
                  (''solana'', JObj [(''usd'', JNum 2), (''usd_24h_change'', JNum 0)])]) ''ethereum''"
    by (simp_all add: partial_attempt_def tracked_ids_def)
  have "refresh initial_cache ok_attempt ''BTC'' \<noteq> initial_cache ''BTC''"
    by (simp add: ok_attempt_def ok_payload_def invalid_response_def refresh_def
      updatePrices_def updatePrices_try_def new_entry_def initial_cache_def)
  then have n: "refresh initial_cache ok_attempt \<noteq> initial_cache" by metis
  have s: "''solana'' \<in> set tracked_ids" by (simp add: tracked_ids_def)
  show ?thesis
    using f p n s
      C2_failed_refresh_keeps_cache[of failed_attempt "refresh initial_cache ok_attempt"]
      C2_failed_refresh_keeps_cache[of partial_attempt "refresh initial_cache ok_attempt"]
      C2_failed_refresh_keeps_cache[of ok_attempt initial_cache]
    by (auto simp: ok_attempt_def)
qed

text \<open>
  Claim C4. As long as no refresh attempt has succeeded, \<^verbatim>\<open>getPrice\<close> returns
  \<^verbatim>\<open>undefined\<close> for BTC, ETH and SOL. After a successful attempt, and until the next
  successful one, it returns for each of them an entry whose \<^verbatim>\<open>last_updated\<close> is not
  before the start of that attempt.
\<close>

theorem C4_absent_then_fresh:
  "((\<forall>a \<in> set as. \<not> successful a) \<longrightarrow> (\<forall>s \<in> set tracked. getPrice (refreshes as) s = Undefined))
   \<and> (successful a \<and> (\<forall>a' \<in> set later. \<not> successful a') \<longrightarrow>
        (\<forall>s \<in> set tracked. \<exists>e. getPrice (foldl refresh (refresh cache a) later) s = Entry e
            \<and> started a \<le> last_updated e))"
proof (intro conjI impI)
  assume "\<forall>a \<in> set as. \<not> successful a"
  then have "refreshes as = initial_cache"
    unfolding refreshes_def by (rule foldl_refresh_unsuccessful)
  then show "\<forall>s \<in> set tracked. getPrice (refreshes as) s = Undefined"
    by (simp add: tracked_def getPrice_def initial_cache_def Object_prototype_def)
next
  assume h: "successful a \<and> (\<forall>a' \<in> set later. \<not> successful a')"
  then have eq: "foldl refresh (refresh cache a) later = refresh cache a"
    by (simp add: foldl_refresh_unsuccessful)
  from h refresh_successful[of a cache] obtain b e s where
    r: "refresh cache a = [''BTC'' \<mapsto> b, ''ETH'' \<mapsto> e, ''SOL'' \<mapsto> s]"
    and t: "started a \<le> last_updated b" "started a \<le> last_updated e" "started a \<le> last_updated s"
    by blast
  from eq r have "foldl refresh (refresh cache a) later = [''BTC'' \<mapsto> b, ''ETH'' \<mapsto> e, ''SOL'' \<mapsto> s]"
    by simp
  then show "\<forall>s \<in> set tracked. \<exists>e. getPrice (foldl refresh (refresh cache a) later) s = Entry e
            \<and> started a \<le> last_updated e"
    using t by (simp only: tracked_def) (simp add: getPrice_tracked_entries)
qed

theorem C4_witness:
  "\<not> successful failed_attempt \<and> \<not> successful partial_attempt
   \<and> getPrice (refreshes [failed_attempt, partial_attempt]) ''ETH'' = Undefined
   \<and> successful ok_attempt
   \<and> getPrice (foldl refresh (refresh initial_cache ok_attempt) [failed_attempt]) ''SOL'' =
       Entry \<lparr>usd = Some (JNum 100), usd_24h_change = Some (JNum 5), last_updated = 1251\<rparr>
   \<and> started ok_attempt \<le> 1251"
proof -
  have s: "\<not> successful failed_attempt" "\<not> successful partial_attempt" "successful ok_attempt"
    by (simp_all add: successful_def ok_attempt_def ok_payload_def invalid_response_def
        failed_attempt_def partial_attempt_def)
  have t: "''ETH'' \<in> set tracked" "''SOL'' \<in> set tracked" by (simp_all add: tracked_def)
  have v: "getPrice (foldl refresh (refresh initial_cache ok_attempt) [failed_attempt]) ''SOL'' =
       Entry \<lparr>usd = Some (JNum 100), usd_24h_change = Some (JNum 5), last_updated = 1251\<rparr>"
    by (simp add: ok_attempt_def ok_payload_def invalid_response_def failed_attempt_def refresh_def
      updatePrices_def updatePrices_try_def new_entry_def getPrice_def initial_cache_def)
  have st: "started ok_attempt \<le> 1251" by (simp add: ok_attempt_def)
  from C4_absent_then_fresh[of "[failed_attempt, partial_attempt]" ok_attempt "[failed_attempt]" initial_cache] s t
  have "getPrice (refreshes [failed_attempt, partial_attempt]) ''ETH'' = Undefined" by simp
  then show ?thesis using s v st by simp
qed

text \<open>
  Claim C8. A read takes the cache and nothing else and leaves it as it is: in a run of
  reads between two refreshes the cache stays the same, and two reads of the same symbol
  return the same result, the one the cache gave at the start.
\<close>

theorem C8_reads_idempotent:
  assumes "\<forall>x \<in> set ops. is_read x"
  shows "fst (exec_ops cache ops) = cache
     \<and> (\<forall>i < length ops. \<forall>j < length ops. \<forall>s. ops ! i = GetPrice s \<and> ops ! j = GetPrice s \<longrightarrow>
          snd (exec_ops cache ops) ! i = snd (exec_ops cache ops) ! j
          \<and> snd (exec_ops cache ops) ! i = Some (getPrice cache s))"
  using exec_ops_reads[OF assms, of cache] by auto

theorem C8_witness:
  "is_read (GetPrice ''BTC'') \<and> is_read (GetPrice ''XRP'')
   \<and> fst (exec_ops (refreshes [ok_attempt]) [GetPrice ''BTC'', GetPrice ''XRP'', GetPrice ''BTC''])
       = refreshes [ok_attempt]
   \<and> snd (exec_ops (refreshes [ok_attempt]) [GetPrice ''BTC'', GetPrice ''XRP'', GetPrice ''BTC'']) ! 0 =
     snd (exec_ops (refreshes [ok_attempt]) [GetPrice ''BTC'', GetPrice ''XRP'', GetPrice ''BTC'']) ! 2"
proof -
  have h: "\<forall>x \<in> set [GetPrice ''BTC'', GetPrice ''XRP'', GetPrice ''BTC'']. is_read x" by simp
  from C8_reads_idempotent[OF h, of "refreshes [ok_attempt]"] show ?thesis by simp
qed

text \<open>
  Claim C9, as stated: in every cache that refresh attempts produce, every entry has a
  non-negative \<^verbatim>\<open>usd\<close>. The validation only checks that the three symbols are there,
  so a payload with a negative price passes it and the price is stored.
\<close>

theorem C9_negative_price_stored:
  "successful negative_attempt \<and> \<not> price_nonneg (getPrice (refreshes [negative_attempt]) ''BTC'')"
  by (simp add: successful_def negative_attempt_def invalid_response_def refreshes_def refresh_def
      updatePrices_def updatePrices_try_def new_entry_def getPrice_def nonneg_def)

text \<open>
  Claim C9, amended. When every payload that passes the validation carries a
  non-negative number as the \<^verbatim>\<open>usd\<close> of each of the three coins, every entry that
  \<^verbatim>\<open>getPrice\<close> returns has a non-negative \<^verbatim>\<open>usd\<close>: the cache stores the prices of
  the payload as they are.
\<close>

theorem C9_prices_as_payload:
  assumes "\<forall>a \<in> set as. successful a \<longrightarrow> payload_nonneg a"
  shows "price_nonneg (getPrice (refreshes as) s)"
proof -
  have "\<forall>s e. refreshes as s = Some e \<longrightarrow> nonneg (usd e)"
    unfolding refreshes_def using assms
    by (intro foldl_refresh_nonneg) (simp_all add: initial_cache_def)
  then show ?thesis
    by (auto simp: getPrice_def split: option.splits)
qed

theorem C9_prices_as_payload_witness:
  "successful ok_attempt \<and> payload_nonneg ok_attempt \<and> price_nonneg (getPrice (refreshes [ok_attempt, failed_attempt]) ''BTC'')
   \<and> getPrice (refreshes [ok_attempt, failed_attempt]) ''BTC'' =
      Entry \<lparr>usd = Some (JNum 50000), usd_24h_change = Some (JNum (3 / 2)), last_updated = 1250\<rparr>"
proof -
  have s: "successful ok_attempt" "\<not> successful failed_attempt"
    by (simp_all add: successful_def ok_attempt_def ok_payload_def invalid_response_def failed_attempt_def)
  have p: "payload_nonneg ok_attempt"
    by (simp add: payload_nonneg_def ok_attempt_def ok_payload_def tracked_ids_def nonneg_def)
  have h: "\<forall>a \<in> set [ok_attempt, failed_attempt]. successful a \<longrightarrow> payload_nonneg a"
    using s p by simp
  have v: "getPrice (refreshes [ok_attempt, failed_attempt]) ''BTC'' =
      Entry \<lparr>usd = Some (JNum 50000), usd_24h_change = Some (JNum (3 / 2)), last_updated = 1250\<rparr>"
    by (simp add: ok_attempt_def ok_payload_def invalid_response_def failed_attempt_def refreshes_def refresh_def
      updatePrices_def updatePrices_try_def new_entry_def getPrice_def initial_cache_def)
  show ?thesis using s p v C9_prices_as_payload[OF h, of "''BTC''"] by simp
qed

text \<open>
  Claim C10. The own keys of the cache are always among BTC, ETH and SOL
  (\<open>refreshes_dom\<close>), and a read of any other name that \<^verbatim>\<open>Object.prototype\<close> does not
  define returns \<^verbatim>\<open>undefined\<close> (\<open>getPrice_untracked\<close>). The cache is a plain object,
  though, so in every reachable state the read of \<^verbatim>\<open>constructor\<close>, which is not a
  tracked symbol, returns the inherited member instead of \<^verbatim>\<open>undefined\<close>.
\<close>

theorem C10_getPrice_constructor:
  "''constructor'' \<notin> set tracked \<and> getPrice (refreshes as) ''constructor'' = Inherited ''constructor''"
proof -
  have n: "''constructor'' \<notin> set tracked" by (simp add: tracked_def)
  with refreshes_dom[of as] have "refreshes as ''constructor'' = None" by blast
  then show ?thesis using n by (simp add: getPrice_def Object_prototype_def)
qed


section \<open>Properties of the session store and the chat pipeline\<close>

lemma api_chat_state: "fst (snd (api_chat env st k m)) = st"
  by (auto simp: api_chat_def Let_def split: option.splits sum.splits text_stream.splits)

lemma api_portfolio_state: "snd (api_portfolio env st k) = st"
  by (auto simp: api_portfolio_def Let_def split: option.splits sum.splits)

lemma api_sign_transaction_state: "snd (api_sign_transaction st k tx) = st"
  by (auto simp: api_sign_transaction_def split: option.splits)

lemma api_init_session_other:
  "k' \<noteq> k \<Longrightarrow> userSessions (snd (api_init_session env st k')) k = userSessions st k"
  by (auto simp: api_init_session_def Let_def split: option.splits)

lemma handle_other:
  "r \<noteq> InitSession k \<Longrightarrow> userSessions (handle env st r) k = userSessions st k"
  by (cases r)
     (simp_all add: api_chat_state api_portfolio_state api_sign_transaction_state
        api_init_session_other)

lemma step_other:
  "\<forall>env. ev \<noteq> Request env (InitSession k) \<Longrightarrow> userSessions (step st ev) k = userSessions st k"
  by (cases ev) (simp_all add: handle_other)

lemma init_keys_Cons:
  "k \<notin> init_keys (ev # evs) \<longleftrightarrow> (\<forall>env. ev \<noteq> Request env (InitSession k)) \<and> k \<notin> init_keys evs"
  by (induction "ev # evs" rule: init_keys.induct) auto

lemma foldl_step_no_init:
  "k \<notin> init_keys evs \<Longrightarrow> userSessions (foldl step st evs) k = userSessions st k"
proof (induction evs arbitrary: st)
  case Nil
  then show ?case by simp
next
  case (Cons ev evs)
  then show ?case by (simp only: init_keys_Cons foldl_Cons) (simp add: step_other)
qed

lemma run_no_init: "k \<notin> init_keys evs \<Longrightarrow> userSessions (run evs) k = None"
  unfolding run_def by (simp add: foldl_step_no_init initial_server_def)

lemma handle_sessions_fresh:
  assumes "\<forall>k s. userSessions st k = Some s \<longrightarrow>
             ref (agent s) < allocated st \<and> tools s = createVercelAITools (agent s)"
  shows "\<forall>k s. userSessions (handle env st r) k = Some s \<longrightarrow>
             ref (agent s) < allocated (handle env st r) \<and> tools s = createVercelAITools (agent s)"
proof (cases r)
  case (InitSession k')
  show ?thesis using assms unfolding InitSession
    by (auto simp: api_init_session_def Let_def less_Suc_eq split: option.splits if_splits)
next
  case (Chat k' m)
  then show ?thesis using assms by (simp add: api_chat_state)
next
  case (SignTransaction k' tx)
  then show ?thesis using assms by (simp add: api_sign_transaction_state)
next
  case (Portfolio k')
  then show ?thesis using assms by (simp add: api_portfolio_state)
qed

lemma step_sessions_fresh:
  assumes "\<forall>k s. userSessions st k = Some s \<longrightarrow>
             ref (agent s) < allocated st \<and> tools s = createVercelAITools (agent s)"
  shows "\<forall>k s. userSessions (step st ev) k = Some s \<longrightarrow>
             ref (agent s) < allocated (step st ev) \<and> tools s = createVercelAITools (agent s)"
proof (cases ev)
  case (Request env r)
  then show ?thesis using handle_sessions_fresh[OF assms, of env r] by simp
next
  case (RefreshDone a)
  then show ?thesis using assms by simp
qed

lemma foldl_step_sessions_fresh:
  "\<forall>k s. userSessions st k = Some s \<longrightarrow>
      ref (agent s) < allocated st \<and> tools s = createVercelAITools (agent s) \<Longrightarrow>
   \<forall>k s. userSessions (foldl step st evs) k = Some s \<longrightarrow>
      ref (agent s) < allocated (foldl step st evs) \<and> tools s = createVercelAITools (agent s)"
proof (induction evs arbitrary: st)
  case Nil
  then show ?case by simp
next
  case (Cons ev evs)
  from step_sessions_fresh[OF Cons.prems, of ev] Cons.IH[of "step st ev"]
  show ?case by simp
qed

lemma run_sessions_fresh:
  "userSessions (run evs) k = Some s \<Longrightarrow>
     ref (agent s) < allocated (run evs) \<and> tools s = createVercelAITools (agent s)"
  using foldl_step_sessions_fresh[of initial_server evs]
  by (simp add: run_def initial_server_def)

lemma buffer_concat: "buffer acc chunks = acc @ concat chunks"
  by (induction chunks arbitrary: acc) simp_all

lemma api_chat_calls:
  "userSessions st k = Some s \<Longrightarrow> k \<noteq> [] \<Longrightarrow> m \<noteq> [] \<Longrightarrow>
     snd (snd (api_chat env st k m)) = [chat_invocation s m]"
  by (auto simp: api_chat_def Let_def split: sum.splits text_stream.splits option.splits)

lemma step_loop_bound: "snd (snd (step_loop respond dispatch budget ctx)) \<le> budget"
proof (induction budget arbitrary: ctx)
  case 0
  show ?case by simp
next
  case (Suc budget)
  show ?case
  proof (cases "respond ctx")
    case (ToolCalls fragments calls)
    from Suc[of "ctx @ map (\<lambda>c. (c, dispatch c)) calls"] ToolCalls show ?thesis
      by (simp add: split_beta)
  qed simp_all
qed

lemma sample_sessions:
  "userSessions (run sample_history) ''walletA'' = Some sample_session"
  by (simp add: run_def sample_history_def initial_server_def api_init_session_def stub_env_def Let_def
      sample_session_def sample_agent_def createVercelAITools_def)

text \<open>
  Claim C1, as stated: for a key never passed to \<^verbatim>\<open>init-session\<close>, the chat fails with
  the session-not-found condition for any message. The handler checks the message
  first: with an empty message it fails with ``Message and public key are required''.
\<close>

theorem C1_empty_message:
  "''walletA'' \<notin> init_keys [] \<and> \<not> session_not_found (fst (api_chat stub_env (run []) ''walletA'' []))"
  by (simp add: api_chat_def)

text \<open>
  Claim C1, amended. For a key \<open>k\<close> that no event of the history passed to
  \<^verbatim>\<open>init-session\<close>: the portfolio request fails with ``Session not found''; the chat
  fails with ``Session not found - please connect wallet first'' when \<open>k\<close> and the
  message are non-empty, and with ``Message and public key are required'' otherwise.
  Each of these calls leaves the state of the process, and so the session store, as
  it was, and the chat calls no model.
\<close>

theorem C1_unknown_key:
  assumes "k \<notin> init_keys evs"
  shows "api_portfolio env (run evs) k = (Inl (SessionNotFound ''Session not found''), run evs)
    \<and> (k \<noteq> [] \<and> m \<noteq> [] \<longrightarrow>
         api_chat env (run evs) k m =
           (Inl (SessionNotFound ''Session not found - please connect wallet first''), run evs, []))
    \<and> (k = [] \<or> m = [] \<longrightarrow>
         api_chat env (run evs) k m =
           (Inl (MissingParameter ''Message and public key are required''), run evs, []))"
  using run_no_init[OF assms] by (simp add: api_portfolio_def api_chat_def)

theorem C1_unknown_key_witness:
  "''walletB'' \<notin> init_keys [Request stub_env (InitSession ''walletA''), Request stub_env (Chat ''walletA'' ''hello'')]
   \<and> session_not_found (fst (api_portfolio stub_env
        (run [Request stub_env (InitSession ''walletA''), Request stub_env (Chat ''walletA'' ''hello'')]) ''walletB''))
   \<and> session_not_found (fst (api_chat stub_env
        (run [Request stub_env (InitSession ''walletA''), Request stub_env (Chat ''walletA'' ''hello'')]) ''walletB'' ''hi''))"
proof -
  have h: "''walletB'' \<notin> init_keys [Request stub_env (InitSession ''walletA''), Request stub_env (Chat ''walletA'' ''hello'')]"
    by simp
  from C1_unknown_key[OF h, of stub_env "''hi''"] h show ?thesis by simp
qed

text \<open>
  Claim C3. When a session for \<open>k\<close> exists and \<^verbatim>\<open>init-session\<close> succeeds for \<open>k\<close>
  again, the store holds for \<open>k\<close> a session with a newly allocated agent, built from
  the key and the configuration of the later call, and the tool set derived from that
  agent. Agent and tool set differ from those of every session stored before, the
  replaced one included. As long as no further \<^verbatim>\<open>init-session\<close> for \<open>k\<close> follows, a
  chat for \<open>k\<close> calls the model once, with the tool set of the new session and not
  that of the old one.
\<close>

theorem C3_reinit_replaces_session:
  assumes old: "userSessions (run evs) k = Some old"
    and init: "api_init_session env (run evs) k = (Inr (), st')"
    and later: "k \<notin> init_keys later"
    and m: "m \<noteq> []"
  shows "\<exists>new. userSessions (foldl step st' later) k = Some new
      \<and> agent new = \<lparr>ref = allocated (run evs), wallet = k, rpc_url = RPC_URL env,
                     config = env_keys env\<rparr>
      \<and> tools new = createVercelAITools (agent new)
      \<and> agent new \<noteq> agent old \<and> tools new \<noteq> tools old
      \<and> (\<forall>k' s. userSessions (run evs) k' = Some s \<longrightarrow> agent s \<noteq> agent new \<and> tools s \<noteq> tools new)
      \<and> snd (snd (api_chat env' (foldl step st' later) k m)) = [chat_invocation new m]
      \<and> inv_tools (chat_invocation new m) = tools new
      \<and> inv_tools (chat_invocation new m) \<noteq> tools old"
proof -
  define a where "a = \<lparr>ref = allocated (run evs), wallet = k, rpc_url = RPC_URL env,
                     config = env_keys env\<rparr>"
  define new where "new = \<lparr>agent = a, tools = createVercelAITools a\<rparr>"
  from init have k: "k \<noteq> []" and st': "userSessions st' k = Some new"
    by (auto simp: api_init_session_def Let_def new_def a_def split: if_splits option.splits)
  have stored: "userSessions (foldl step st' later) k = Some new"
    using foldl_step_no_init[OF later, of st'] st' by simp
  have fresh: "agent s \<noteq> agent new \<and> tools s \<noteq> tools new"
    if "userSessions (run evs) k' = Some s" for k' s
  proof -
    from run_sessions_fresh[OF that] have "ref (agent s) < ref a" "tools s = createVercelAITools (agent s)"
      by (simp_all add: a_def)
    then show ?thesis by (auto simp: new_def createVercelAITools_def)
  qed
  from fresh[OF old] have diff: "agent new \<noteq> agent old" "tools new \<noteq> tools old" by auto
  have call: "snd (snd (api_chat env' (foldl step st' later) k m)) = [chat_invocation new m]"
    by (rule api_chat_calls[OF stored k m])
  have t: "inv_tools (chat_invocation new m) = tools new"
    by (simp add: chat_invocation_def)
  show ?thesis
    using stored fresh diff call t by (intro exI[of _ new]) (simp add: new_def a_def)
qed

theorem C3_witness:
  "userSessions (run sample_history) ''walletA'' = Some sample_session
   \<and> fst (api_init_session stub_env (run sample_history) ''walletA'') = Inr ()
   \<and> ''walletA'' \<notin> init_keys [Request stub_env (Portfolio ''walletA'')]
   \<and> map inv_tools (snd (snd (api_chat stub_env
        (foldl step (snd (api_init_session stub_env (run sample_history) ''walletA''))
           [Request stub_env (Portfolio ''walletA'')])
        ''walletA'' ''what is my balance?''))) \<noteq> [VercelAITools sample_agent]"
proof -
  have f: "fst (api_init_session stub_env (run sample_history) ''walletA'') = Inr ()"
    by (simp add: api_init_session_def stub_env_def Let_def)
  then have i: "api_init_session stub_env (run sample_history) ''walletA'' =
      (Inr (), snd (api_init_session stub_env (run sample_history) ''walletA''))"
    by (metis prod.collapse)
  have l: "''walletA'' \<notin> init_keys [Request stub_env (Portfolio ''walletA'')]" by simp
  have m: "''what is my balance?'' \<noteq> []" by simp
  from C3_reinit_replaces_session[OF sample_sessions i l m, of stub_env]
  obtain new where
    c: "snd (snd (api_chat stub_env
          (foldl step (snd (api_init_session stub_env (run sample_history) ''walletA''))
             [Request stub_env (Portfolio ''walletA'')])
          ''walletA'' ''what is my balance?'')) = [chat_invocation new ''what is my balance?'']"
    and n: "inv_tools (chat_invocation new ''what is my balance?'') \<noteq> tools sample_session"
    by blast
  from n have "map inv_tools [chat_invocation new ''what is my balance?''] \<noteq>
      [VercelAITools sample_agent]"
    by (simp add: sample_session_def)
  then show ?thesis using sample_sessions f l c by simp
qed

text \<open>
  Claim C7. For a stored session and a non-empty key and message, the chat calls
  \<^verbatim>\<open>streamText\<close> exactly once, with the message as prompt, the tool set of the session,
  the model \<^verbatim>\<open>gpt-4o-mini\<close>, temperature 0.7, the fixed system instruction and a step
  budget of 10. The step loop run on that call performs at most 10 steps and delivers a
  stream, and the chat returns the concatenation of its fragments, or the error that
  ended it. For any model capability, when the stream ends normally the response is the
  concatenation of the fragments in order.
\<close>

theorem C7_one_bounded_invocation:
  assumes "userSessions st k = Some s" and "k \<noteq> []" and "m \<noteq> []"
  shows "snd (snd (api_chat env st k m)) =
           [\<lparr>prompt = m, inv_tools = tools s, model = ''gpt-4o-mini'', temperature = 7 / 10,
             system =
               ''You are a helpful agent that can interact onchain using the Solana Agent Kit...'',
             maxSteps = 10\<rparr>]
    \<and> (\<forall>call \<in> set (snd (snd (api_chat env st k m))).
          steps_taken respond dispatch call \<le> 10
          \<and> (\<exists>fragments failure.
                streamText_loop respond dispatch call = Inr (TextStream fragments failure)
                \<and> fst (api_chat (env\<lparr>streamText := streamText_loop respond dispatch\<rparr>) st k m) =
                    (case failure of None \<Rightarrow> Inr (concat fragments) | Some e \<Rightarrow> Inl e)))
    \<and> (\<forall>chunks. streamText env (chat_invocation s m) = Inr (TextStream chunks None) \<longrightarrow>
          fst (api_chat env st k m) = Inr (concat chunks))"
proof (intro conjI)
  show c: "snd (snd (api_chat env st k m)) =
           [\<lparr>prompt = m, inv_tools = tools s, model = ''gpt-4o-mini'', temperature = 7 / 10,
             system =
               ''You are a helpful agent that can interact onchain using the Solana Agent Kit...'',
             maxSteps = 10\<rparr>]"
    using api_chat_calls[OF assms, of env] by (simp add: chat_invocation_def)
  show "\<forall>chunks. streamText env (chat_invocation s m) = Inr (TextStream chunks None) \<longrightarrow>
          fst (api_chat env st k m) = Inr (concat chunks)"
    using assms by (simp add: api_chat_def buffer_concat)
  have b: "steps_taken respond dispatch (chat_invocation s m) \<le> 10"
    using step_loop_bound[of "respond (chat_invocation s m)"
        "dispatch (inv_tools (chat_invocation s m))" "maxSteps (chat_invocation s m)" "[]"]
    by (simp add: steps_taken_def chat_invocation_def)
  obtain fragments failure n where
    l: "step_loop (respond (chat_invocation s m)) (dispatch (inv_tools (chat_invocation s m)))
          (maxSteps (chat_invocation s m)) [] = (fragments, failure, n)"
    by (metis prod_cases3)
  then have st: "streamText_loop respond dispatch (chat_invocation s m) =
      Inr (TextStream fragments failure)"
    by (simp add: streamText_loop_def)
  have r: "fst (api_chat (env\<lparr>streamText := streamText_loop respond dispatch\<rparr>) st k m) =
      (case failure of None \<Rightarrow> Inr (concat fragments) | Some e \<Rightarrow> Inl e)"
    using assms st by (simp add: api_chat_def buffer_concat split: option.splits)
  show "\<forall>call \<in> set (snd (snd (api_chat env st k m))).
          steps_taken respond dispatch call \<le> 10
          \<and> (\<exists>fragments failure.
                streamText_loop respond dispatch call = Inr (TextStream fragments failure)
                \<and> fst (api_chat (env\<lparr>streamText := streamText_loop respond dispatch\<rparr>) st k m) =
                    (case failure of None \<Rightarrow> Inr (concat fragments) | Some e \<Rightarrow> Inl e))"
    using b st r api_chat_calls[OF assms, of env] by simp
qed

theorem C7_witness:
  "userSessions (run sample_history) ''walletA'' = Some sample_session
   \<and> length (snd (snd (api_chat stub_env (run sample_history) ''walletA'' ''what is my balance?''))) = 1
   \<and> steps_taken busy_model stub_dispatch (chat_invocation sample_session ''what is my balance?'') \<le> 10
   \<and> fst (api_chat stub_env (run sample_history) ''walletA'' ''what is my balance?'') =
       Inr ''Your balance is 2 SOL''"
proof -
  have k: "''walletA'' \<noteq> []" and m: "''what is my balance?'' \<noteq> []" by simp_all
  have s: "streamText stub_env (chat_invocation sample_session ''what is my balance?'') =
      Inr (TextStream [''Your balance '', ''is 2 SOL''] None)"
    by (simp add: stub_env_def)
  from C7_one_bounded_invocation[OF sample_sessions k m, of stub_env busy_model stub_dispatch] s
  show ?thesis using sample_sessions by (simp add: chat_invocation_def)
qed


section \<open>Properties of the portfolio\<close>

lemma toFixed_zero: "toFixed 0 d = 0"
proof -
  have "\<lfloor>(1::rat) / 2\<rfloor> = 0" by (rule floor_unique) simp_all
  then show ?thesis by (simp add: toFixed_def)
qed

lemma toFixed_decimal: "\<exists>n::int. toFixed x d = of_int n / 10 ^ d"
proof (cases "x < 0")
  case True
  then have "toFixed x d = of_int (- \<lfloor>- x * 10 ^ d + 1 / 2\<rfloor>) / 10 ^ d"
    by (simp add: toFixed_def)
  then show ?thesis by blast
next
  case False
  then have "toFixed x d = of_int \<lfloor>x * 10 ^ d + 1 / 2\<rfloor> / 10 ^ d"
    by (simp add: toFixed_def)
  then show ?thesis by blast
qed

lemma round_half_close:
  fixes y :: rat
  shows "\<bar>of_int \<lfloor>y + 1 / 2\<rfloor> - y\<bar> \<le> 1 / 2"
proof -
  have "of_int \<lfloor>y + 1 / 2\<rfloor> \<le> y + 1 / 2" by (rule of_int_floor_le)
  moreover have "y + 1 / 2 < of_int \<lfloor>y + 1 / 2\<rfloor> + 1"
    using floor_correct[of "y + 1 / 2"] by simp
  ultimately show ?thesis by linarith
qed

lemma toFixed_close: "\<bar>toFixed x d - x\<bar> \<le> 1 / (2 * 10 ^ d)"
proof -
  have pos: "(0::rat) < 10 ^ d" by simp
  have scale: "\<bar>of_int n / 10 ^ d - y / 10 ^ d\<bar> \<le> 1 / (2 * 10 ^ d)"
    if "\<bar>of_int n - y\<bar> \<le> 1 / 2" for n :: int and y :: rat
  proof -
    have "\<bar>of_int n / 10 ^ d - y / 10 ^ d\<bar> = \<bar>of_int n - y\<bar> / 10 ^ d"
      by (simp add: diff_divide_distrib[symmetric] abs_divide del: of_int_diff)
    also have "\<dots> \<le> (1 / 2) / 10 ^ d"
      using that pos by (intro divide_right_mono) simp_all
    finally show ?thesis by simp
  qed
  show ?thesis
  proof (cases "x < 0")
    case True
    have "\<bar>of_int \<lfloor>- x * 10 ^ d + 1 / 2\<rfloor> / 10 ^ d - (- x * 10 ^ d) / 10 ^ d\<bar> \<le> 1 / (2 * 10 ^ d)"
      by (rule scale) (rule round_half_close)
    then show ?thesis using True by (simp add: toFixed_def)
  next
    case False
    have "\<bar>of_int \<lfloor>x * 10 ^ d + 1 / 2\<rfloor> / 10 ^ d - (x * 10 ^ d) / 10 ^ d\<bar> \<le> 1 / (2 * 10 ^ d)"
      by (rule scale) (rule round_half_close)
    then show ?thesis using False by (simp add: toFixed_def)
  qed
qed

lemma api_portfolio_tokens:
  assumes "api_portfolio env st k = (Inr r, st')"
    and "userSessions st k = Some s"
    and "get_token_balance env (agent s) = Inr b"
  shows "r_tokens r = map (format_token env (agent s)) (tokens b)"
  using assms
  by (auto simp: api_portfolio_def Let_def split: sum.splits)

lemma api_portfolio_ok:
  assumes "userSessions st k = Some s"
    and "get_token_balance env (agent s) = Inr b"
    and "getPythPriceFeedID env (agent s) ''SOL'' = Inr feed"
    and "getPythPrice env (agent s) feed = Inr p"
  shows "\<exists>r. api_portfolio env st k = (Inr r, st)
       \<and> r_tokens r = map (format_token env (agent s)) (tokens b)"
  using assms by (simp add: api_portfolio_def Let_def)

lemma api_portfolio_fetchTokenPrice:
  assumes "api_portfolio env st k = (Inr r, st')"
  shows "\<exists>r'. api_portfolio (env\<lparr>fetchTokenPrice := f\<rparr>) st k = (Inr r', st)
       \<and> (\<forall>s b. userSessions st k = Some s \<longrightarrow> get_token_balance env (agent s) = Inr b \<longrightarrow>
            r_tokens r' = map (format_token (env\<lparr>fetchTokenPrice := f\<rparr>) (agent s)) (tokens b))"
  using assms
  by (auto simp: api_portfolio_def Let_def split: sum.splits option.splits)

lemma format_token_USDC:
  "symbol t = ''USDC'' \<Longrightarrow>
     format_token env a t =
       \<lparr>ft_token = ''USDC'', ft_symbol = name t, ft_balance = toFixed (balance t) 8,
        ft_usdValue = toFixed (balance t) 2\<rparr>"
  by (simp add: format_token_def)

lemma format_token_throws:
  "symbol t \<noteq> ''USDC'' \<Longrightarrow> fetchTokenPrice env a (tokenAddress t) = Inl e \<Longrightarrow>
     format_token env a t =
       \<lparr>ft_token = symbol t, ft_symbol = name t, ft_balance = toFixed (balance t) 8,
        ft_usdValue = 0\<rparr>"
  by (simp add: format_token_def toFixed_zero)

text \<open>
  Claim C5. In every portfolio response the entry of a token whose symbol is USDC has
  as USD value the balance rounded to 2 decimals and as balance the balance rounded to
  8 decimals: each is a multiple of the unit of its precision, within half a unit of
  the balance. The entry is the same whatever the token price lookup does.
\<close>

theorem C5_stable_asset_value:
  assumes r: "api_portfolio env st k = (Inr r, st')"
    and s: "userSessions st k = Some s"
    and b: "get_token_balance env (agent s) = Inr b"
    and i: "i < length (tokens b)"
    and usdc: "symbol (tokens b ! i) = ''USDC''"
  shows "length (r_tokens r) = length (tokens b)
    \<and> ft_usdValue (r_tokens r ! i) = toFixed (balance (tokens b ! i)) 2
    \<and> ft_balance (r_tokens r ! i) = toFixed (balance (tokens b ! i)) 8
    \<and> (\<exists>n::int. ft_usdValue (r_tokens r ! i) = of_int n / 10 ^ 2)
    \<and> \<bar>ft_usdValue (r_tokens r ! i) - balance (tokens b ! i)\<bar> \<le> 1 / (2 * 10 ^ 2)
    \<and> (\<exists>n::int. ft_balance (r_tokens r ! i) = of_int n / 10 ^ 8)
    \<and> \<bar>ft_balance (r_tokens r ! i) - balance (tokens b ! i)\<bar> \<le> 1 / (2 * 10 ^ 8)
    \<and> (\<forall>f. \<exists>r'. api_portfolio (env\<lparr>fetchTokenPrice := f\<rparr>) st k = (Inr r', st)
           \<and> r_tokens r' ! i = r_tokens r ! i)"
proof -
  have t: "r_tokens r = map (format_token env (agent s)) (tokens b)"
    by (rule api_portfolio_tokens[OF r s b])
  have e: "r_tokens r ! i =
       \<lparr>ft_token = ''USDC'', ft_symbol = name (tokens b ! i),
        ft_balance = toFixed (balance (tokens b ! i)) 8,
        ft_usdValue = toFixed (balance (tokens b ! i)) 2\<rparr>"
    using t i format_token_USDC[OF usdc] by simp
  have indep: "\<exists>r'. api_portfolio (env\<lparr>fetchTokenPrice := f\<rparr>) st k = (Inr r', st)
           \<and> r_tokens r' ! i = r_tokens r ! i" for f
  proof -
    from api_portfolio_fetchTokenPrice[OF r, of f] s b obtain r' where
      r': "api_portfolio (env\<lparr>fetchTokenPrice := f\<rparr>) st k = (Inr r', st)"
      and t': "r_tokens r' = map (format_token (env\<lparr>fetchTokenPrice := f\<rparr>) (agent s)) (tokens b)"
      by auto
    have "r_tokens r' ! i = r_tokens r ! i"
      using t' i e format_token_USDC[OF usdc] by simp
    with r' show ?thesis by blast
  qed
  show ?thesis
    using t e indep toFixed_decimal[of "balance (tokens b ! i)" 2]
      toFixed_close[of "balance (tokens b ! i)" 2]
      toFixed_decimal[of "balance (tokens b ! i)" 8]
      toFixed_close[of "balance (tokens b ! i)" 8]
    by simp
qed

theorem C5_witness:
  "userSessions (run sample_history) ''walletA'' = Some sample_session
   \<and> get_token_balance stub_env (agent sample_session) = Inr sample_balances
   \<and> symbol (tokens sample_balances ! 0) = ''USDC''
   \<and> balance (tokens sample_balances ! 0) = 123456 / 10000
   \<and> ft_usdValue (r_tokens (projr (fst (api_portfolio stub_env (run sample_history) ''walletA''))) ! 0)
       = 1235 / 100
   \<and> ft_balance (r_tokens (projr (fst (api_portfolio stub_env (run sample_history) ''walletA''))) ! 0)
       = 123456 / 10000"
proof -
  have r: "api_portfolio stub_env (run sample_history) ''walletA'' =
      (Inr (projr (fst (api_portfolio stub_env (run sample_history) ''walletA''))), run sample_history)"
    by (simp add: api_portfolio_def sample_sessions stub_env_def Let_def)
  have b: "get_token_balance stub_env (agent sample_session) = Inr sample_balances"
    by (simp add: stub_env_def sample_balances_def)
  have i: "0 < length (tokens sample_balances)" by (simp add: sample_balances_def)
  have u: "symbol (tokens sample_balances ! 0) = ''USDC''"
    "balance (tokens sample_balances ! 0) = 123456 / 10000"
    by (simp_all add: sample_balances_def stub_token_usdc_def)
  have f2: "toFixed (123456 / 10000) 2 = 1235 / 100"
  proof -
    have "\<lfloor>(123456 :: rat) / 10000 * 10 ^ 2 + 1 / 2\<rfloor> = 1235" by (rule floor_unique) simp_all
    then show ?thesis by (simp add: toFixed_def)
  qed
  have f8: "toFixed (123456 / 10000) 8 = 123456 / 10000"
  proof -
    have "\<lfloor>(123456 :: rat) / 10000 * 10 ^ 8 + 1 / 2\<rfloor> = 1234560000" by (rule floor_unique) simp_all
    then show ?thesis by (simp add: toFixed_def)
  qed
  from C5_stable_asset_value[OF r sample_sessions b i u(1)]
  show ?thesis using sample_sessions b u f2 f8 by simp
qed

text \<open>
  Claim C6. When the session exists and the balance query and the SOL price queries
  succeed, a token other than USDC whose price lookup throws does not make the request
  fail: the response lists every token, the entry of that token has USD value 0, and
  the entry of a token with another address is what it would be under any other outcome
  of the failing lookup.
\<close>

theorem C6_price_failure_degrades:
  assumes s: "userSessions st k = Some s"
    and b: "get_token_balance env (agent s) = Inr b"
    and feed: "getPythPriceFeedID env (agent s) ''SOL'' = Inr feed"
    and p: "getPythPrice env (agent s) feed = Inr p"
    and i: "i < length (tokens b)"
    and other: "symbol (tokens b ! i) \<noteq> ''USDC''"
    and throws: "fetchTokenPrice env (agent s) (tokenAddress (tokens b ! i)) = Inl e"
  shows "\<exists>r. api_portfolio env st k = (Inr r, st)
    \<and> length (r_tokens r) = length (tokens b)
    \<and> r_tokens r ! i =
        \<lparr>ft_token = symbol (tokens b ! i), ft_symbol = name (tokens b ! i),
         ft_balance = toFixed (balance (tokens b ! i)) 8, ft_usdValue = 0\<rparr>
    \<and> (\<forall>j < length (tokens b). \<forall>outcome.
          tokenAddress (tokens b ! j) \<noteq> tokenAddress (tokens b ! i) \<longrightarrow>
          r_tokens r ! j =
            format_token
              (env\<lparr>fetchTokenPrice :=
                     (fetchTokenPrice env)(agent s :=
                        (fetchTokenPrice env (agent s))(tokenAddress (tokens b ! i) := outcome))\<rparr>)
              (agent s) (tokens b ! j))"
proof -
  from api_portfolio_ok[OF s b feed p] obtain r where
    r: "api_portfolio env st k = (Inr r, st)"
    and t: "r_tokens r = map (format_token env (agent s)) (tokens b)" by blast
  have e: "r_tokens r ! i =
        \<lparr>ft_token = symbol (tokens b ! i), ft_symbol = name (tokens b ! i),
         ft_balance = toFixed (balance (tokens b ! i)) 8, ft_usdValue = 0\<rparr>"
    using t i format_token_throws[OF other throws] by simp
  have u: "r_tokens r ! j =
            format_token
              (env\<lparr>fetchTokenPrice :=
                     (fetchTokenPrice env)(agent s :=
                        (fetchTokenPrice env (agent s))(tokenAddress (tokens b ! i) := outcome))\<rparr>)
              (agent s) (tokens b ! j)"
    if "j < length (tokens b)" "tokenAddress (tokens b ! j) \<noteq> tokenAddress (tokens b ! i)"
    for j outcome
    using that t by (simp add: format_token_def)
  show ?thesis using r t e u by auto
qed

theorem C6_witness:
  "userSessions (run sample_history) ''walletA'' = Some sample_session
   \<and> get_token_balance stub_env (agent sample_session) = Inr sample_balances
   \<and> symbol (tokens sample_balances ! 1) = ''BONK''
   \<and> fetchTokenPrice stub_env (agent sample_session) (tokenAddress (tokens sample_balances ! 1)) =
       Inl (Thrown ''price lookup failed'')
   \<and> length (r_tokens (projr (fst (api_portfolio stub_env (run sample_history) ''walletA'')))) = 2
   \<and> ft_usdValue (r_tokens (projr (fst (api_portfolio stub_env (run sample_history) ''walletA''))) ! 1)
       = 0"
proof -
  have b: "get_token_balance stub_env (agent sample_session) = Inr sample_balances"
    by (simp add: stub_env_def sample_balances_def)
  have feed: "getPythPriceFeedID stub_env (agent sample_session) ''SOL'' = Inr ''feed-SOL''"
    and p: "getPythPrice stub_env (agent sample_session) ''feed-SOL'' = Inr 150"
    by (simp_all add: stub_env_def)
  have i: "1 < length (tokens sample_balances)" by (simp add: sample_balances_def)
  have u: "symbol (tokens sample_balances ! 1) = ''BONK''"
    by (simp add: sample_balances_def stub_token_bonk_def)
  then have o: "symbol (tokens sample_balances ! 1) \<noteq> ''USDC''" by simp
  have t: "fetchTokenPrice stub_env (agent sample_session) (tokenAddress (tokens sample_balances ! 1)) =
       Inl (Thrown ''price lookup failed'')"
    by (simp add: stub_env_def)
  from C6_price_failure_degrades[OF sample_sessions b feed p i o t]
  show ?thesis using sample_sessions b u t by (auto simp: sample_balances_def)
qed

end
